theory Spec2Isabelle
  imports Main "HOL-Library.Char_ord"
begin

section \<open>Cinema API views: a shallow embedding of \<open>cinema/views.py\<close>\<close>

text \<open>
  The view sets of \<open>cinema/views.py\<close> compose Django querysets from optional query
  parameters. A queryset is modelled as the list of rows its SQL produces, in table
  order; a join over a many-valued relation yields one row per matching related row,
  and \<open>distinct()\<close> removes repeated rows. Exceptions are values of \<open>error\<close>;
  a function that may raise returns \<open>error + 'a\<close>, with \<open>Inl\<close> the exception.

  Where the same queryset object serves more than one request, as the class-level
  queryset of the session view set does, the object and its result cache are modelled
  too, and the cache is the state of the process.

  A Python string is a list of characters, and a character is a code point below 256;
  strings with code points beyond that are not values of this model.
\<close>

subsection \<open>Exceptions\<close>

datatype error =
    ValueError
  | ValidationError
  | NotFound
  | NotAuthenticated
  | IntegrityError
  | MultipleObjectsReturned

subsection \<open>Python built-ins used by the views\<close>

text \<open>
  Sequencing of statements that may raise: the first exception ends the function.
\<close>

definition and_then :: "error + 'a \<Rightarrow> ('a \<Rightarrow> error + 'b) \<Rightarrow> error + 'b" where
  "and_then r f = (case r of Inl e \<Rightarrow> Inl e | Inr x \<Rightarrow> f x)"

text \<open>
  \<open>if param: queryset = f(param, queryset)\<close>, for \<open>param = query_params.get(name)\<close>:
  \<open>None\<close> (the parameter is absent) and the empty string are falsy, every other
  string is truthy.
\<close>

definition when_given :: "string option \<Rightarrow> (string \<Rightarrow> 'q \<Rightarrow> error + 'q) \<Rightarrow> 'q \<Rightarrow> error + 'q" where
  "when_given param f queryset =
     (case param of
        None \<Rightarrow> Inr queryset
      | Some s \<Rightarrow> if s = [] then Inr queryset else f s queryset)"

text \<open>\<open>str.split(",")\<close>: never returns the empty list; \<open>"".split(",") == [""]\<close>.\<close>

fun split_comma :: "string \<Rightarrow> string list" where
  "split_comma [] = [Nil]"
| "split_comma (c # cs) =
     (if c = CHR '','' then [] # split_comma cs
      else (case split_comma cs of
              [] \<Rightarrow> [c # Nil]
            | w # ws \<Rightarrow> (c # w) # ws))"

text \<open>
  \<open>int(s)\<close> on a string, base 10. White space at both ends is skipped: the six ASCII
  white-space characters and, of the code points from 128 on, the two that are Unicode
  white space (\<open>0x85\<close> and \<open>0xA0\<close>). Then comes one optional sign, then decimal digits,
  where single underscores may separate digits. Anything else raises \<open>ValueError\<close>, and
  so does a number of more than \<open>max_str_digits\<close> digits (the interpreter's default
  limit), leading zeros counted, underscores not.
\<close>

definition is_space :: "char \<Rightarrow> bool" where
  "is_space c = (c \<in> set [CHR 0x09, CHR 0x0A, CHR 0x0B, CHR 0x0C, CHR 0x0D, CHR 0x20,
                           CHR 0x85, CHR 0xA0])"

definition is_digit :: "char \<Rightarrow> bool" where
  "is_digit c = (CHR ''0'' \<le> c \<and> c \<le> CHR ''9'')"

definition digit_val :: "char \<Rightarrow> int" where
  "digit_val c = int (of_char c) - 48"

definition max_str_digits :: nat where
  "max_str_digits = 4300"

definition strip :: "string \<Rightarrow> string" where
  "strip s = rev (dropWhile is_space (rev (dropWhile is_space s)))"

text \<open>
  The digits after the first one: \<open>acc\<close> is the value and \<open>n\<close> the number of the digits
  read so far.
\<close>

fun digits_acc :: "int \<Rightarrow> nat \<Rightarrow> string \<Rightarrow> error + int" where
  "digits_acc acc n [] = (if max_str_digits < n then Inl ValueError else Inr acc)"
| "digits_acc acc n (c # cs) =
     (if is_digit c then digits_acc (acc * 10 + digit_val c) (Suc n) cs
      else if c = CHR ''_'' \<and> (case cs of [] \<Rightarrow> False | d # _ \<Rightarrow> is_digit d)
        then digits_acc acc n cs
      else Inl ValueError)"

definition unsigned_int :: "string \<Rightarrow> error + int" where
  "unsigned_int s =
     (case s of
        [] \<Rightarrow> Inl ValueError
      | c # cs \<Rightarrow> if is_digit c then digits_acc 0 0 s else Inl ValueError)"

definition py_int :: "string \<Rightarrow> error + int" where
  "py_int s =
     (case strip s of
        [] \<Rightarrow> Inl ValueError
      | c # cs \<Rightarrow>
          if c = CHR ''+'' then unsigned_int cs
          else if c = CHR ''-'' then
            (case unsigned_int cs of Inl e \<Rightarrow> Inl e | Inr n \<Rightarrow> Inr (- n))
          else unsigned_int (c # cs))"

text \<open>
  A list comprehension \<open>[f(x) for x in xs]\<close> whose body may raise: elements are
  evaluated left to right and the first exception aborts the whole comprehension.
\<close>

fun comprehension :: "('a \<Rightarrow> error + 'b) \<Rightarrow> 'a list \<Rightarrow> error + 'b list" where
  "comprehension f [] = Inr []"
| "comprehension f (x # xs) =
     (case f x of
        Inl e \<Rightarrow> Inl e
      | Inr y \<Rightarrow> (case comprehension f xs of Inl e \<Rightarrow> Inl e | Inr ys \<Rightarrow> Inr (y # ys)))"

subsection \<open>Dates: \<open>datetime.strptime(s, "%Y-%m-%d").date()\<close>\<close>

record pydate =
  year :: nat
  month :: nat
  day :: nat

definition char_nat :: "char \<Rightarrow> nat" where
  "char_nat c = of_char c - 48"

text \<open>
  The format is compiled to the regular expression
  \<open>(?P<Y>\d\d\d\d)-(?P<m>1[0-2]|0[1-9]|[1-9])-(?P<d>3[0-1]|[1-2]\d|0[1-9]|[1-9]| [1-9])\<close>,
  matched at the start of the string. Each group below lists the ways its alternatives
  match a prefix, in the order the regex engine tries them, with the rest of the input.
\<close>

definition match_Y :: "string \<Rightarrow> (nat \<times> string) list" where
  "match_Y s =
     (case s of
        a # b # c # d # rest \<Rightarrow>
          if is_digit a \<and> is_digit b \<and> is_digit c \<and> is_digit d
          then [(char_nat a * 1000 + char_nat b * 100 + char_nat c * 10 + char_nat d, rest)]
          else []
      | _ \<Rightarrow> [])"

definition two_chars :: "(char \<Rightarrow> bool) \<Rightarrow> (char \<Rightarrow> bool) \<Rightarrow> (char \<Rightarrow> char \<Rightarrow> nat)
    \<Rightarrow> string \<Rightarrow> (nat \<times> string) list" where
  "two_chars p q v s =
     (case s of a # b # rest \<Rightarrow> if p a \<and> q b then [(v a b, rest)] else [] | _ \<Rightarrow> [])"

definition one_char :: "(char \<Rightarrow> bool) \<Rightarrow> string \<Rightarrow> (nat \<times> string) list" where
  "one_char p s = (case s of a # rest \<Rightarrow> if p a then [(char_nat a, rest)] else [] | _ \<Rightarrow> [])"

definition between :: "char \<Rightarrow> char \<Rightarrow> char \<Rightarrow> bool" where
  "between lo hi c = (lo \<le> c \<and> c \<le> hi)"

definition two_digits :: "char \<Rightarrow> char \<Rightarrow> nat" where
  "two_digits a b = char_nat a * 10 + char_nat b"

definition match_m :: "string \<Rightarrow> (nat \<times> string) list" where
  "match_m s =
     two_chars (\<lambda>c. c = CHR ''1'') (between CHR ''0'' CHR ''2'') two_digits s
     @ two_chars (\<lambda>c. c = CHR ''0'') (between CHR ''1'' CHR ''9'') two_digits s
     @ one_char (between CHR ''1'' CHR ''9'') s"

definition match_d :: "string \<Rightarrow> (nat \<times> string) list" where
  "match_d s =
     two_chars (\<lambda>c. c = CHR ''3'') (between CHR ''0'' CHR ''1'') two_digits s
     @ two_chars (between CHR ''1'' CHR ''2'') is_digit two_digits s
     @ two_chars (\<lambda>c. c = CHR ''0'') (between CHR ''1'' CHR ''9'') two_digits s
     @ one_char (between CHR ''1'' CHR ''9'') s
     @ two_chars (\<lambda>c. c = CHR '' '') (between CHR ''1'' CHR ''9'') (\<lambda>a b. char_nat b) s"

definition literal_dash :: "string \<Rightarrow> string list" where
  "literal_dash s = (case s of c # rest \<Rightarrow> if c = CHR ''-'' then [rest] else [] | _ \<Rightarrow> [])"

text \<open>
  All matches of the whole expression, in backtracking order; \<open>re.match\<close> takes the
  first.
\<close>

definition regex_matches :: "string \<Rightarrow> ((nat \<times> nat \<times> nat) \<times> string) list" where
  "regex_matches s =
     concat (map (\<lambda>(y, r1).
       concat (map (\<lambda>r2.
         concat (map (\<lambda>(m, r3).
           concat (map (\<lambda>r4.
             map (\<lambda>(d, r5). ((y, m, d), r5)) (match_d r4))
           (literal_dash r3)))
         (match_m r2)))
       (literal_dash r1)))
     (match_Y s))"

definition is_leap :: "nat \<Rightarrow> bool" where
  "is_leap y = (y mod 4 = 0 \<and> (y mod 100 \<noteq> 0 \<or> y mod 400 = 0))"

definition days_in_month :: "nat \<Rightarrow> nat \<Rightarrow> nat" where
  "days_in_month y m =
     (if m = 2 then (if is_leap y then 29 else 28)
      else if m \<in> set [4, 6, 9, 11] then 30 else 31)"

text \<open>The \<open>date\<close> constructor: raises \<open>ValueError\<close> outside the calendar.\<close>

definition datetime_date :: "nat \<Rightarrow> nat \<Rightarrow> nat \<Rightarrow> error + pydate" where
  "datetime_date y m d =
     (if 1 \<le> y \<and> y \<le> 9999 \<and> 1 \<le> m \<and> m \<le> 12 \<and> 1 \<le> d \<and> d \<le> days_in_month y m
      then Inr \<lparr>year = y, month = m, day = d\<rparr>
      else Inl ValueError)"

text \<open>
  \<open>strptime\<close>: no match raises \<open>ValueError\<close>; so does a match that leaves part of the
  string unconverted; the fields then go through the \<open>date\<close> constructor.
\<close>

definition strptime_date :: "string \<Rightarrow> error + pydate" where
  "strptime_date s =
     (case regex_matches s of
        [] \<Rightarrow> Inl ValueError
      | ((y, m, d), rest) # _ \<Rightarrow>
          if rest \<noteq> [] then Inl ValueError else datetime_date y m d)"

subsection \<open>Entities\<close>

text \<open>
  The model classes live in \<open>cinema/models.py\<close>; the views use the fields below. A
  many-to-many field is the list of the related rows' ids; a foreign key that the views
  follow with \<open>select_related\<close> is the related object itself. A show time is the date
  and the time of day in the time zone of the server; conversions between time zones
  are not modelled.
\<close>

record movie =
  movie_id :: int
  title :: string
  genres :: "int list"
  actors :: "int list"

record cinema_hall =
  hall_id :: int
  rows :: int
  seats_in_row :: int

record pydatetime =
  on_date :: pydate
  hour :: nat
  minute :: nat

record movie_session =
  session_id :: int
  show_time :: pydatetime
  session_movie_id :: int
  cinema_hall :: cinema_hall

record ticket =
  ticket_id :: int
  row :: int
  seat :: int
  ticket_session_id :: int
  ticket_order_id :: int

record cinema_order =
  order_id :: int
  order_user :: int

record database =
  movies :: "movie list"
  sessions :: "movie_session list"
  orders :: "cinema_order list"
  tickets :: "ticket list"

subsection \<open>Queryset operations\<close>

text \<open>
  \<open>title__icontains\<close>: the pattern occurs in the title as a contiguous substring,
  letters compared without regard to (ASCII) case.
\<close>

definition lower_char :: "char \<Rightarrow> char" where
  "lower_char c =
     (case map_of (zip ''ABCDEFGHIJKLMNOPQRSTUVWXYZ'' ''abcdefghijklmnopqrstuvwxyz'') c of
        None \<Rightarrow> c
      | Some l \<Rightarrow> l)"

fun is_prefix :: "string \<Rightarrow> string \<Rightarrow> bool" where
  "is_prefix [] ys = True"
| "is_prefix (x # xs) [] = False"
| "is_prefix (x # xs) (y # ys) = (x = y \<and> is_prefix xs ys)"

fun contains :: "string \<Rightarrow> string \<Rightarrow> bool" where
  "contains pat [] = (pat = [])"
| "contains pat (y # ys) = (is_prefix pat (y # ys) \<or> contains pat ys)"

definition icontains :: "string \<Rightarrow> string \<Rightarrow> bool" where
  "icontains pat s = contains (map lower_char pat) (map lower_char s)"

definition filter_title_icontains :: "string \<Rightarrow> movie list \<Rightarrow> movie list" where
  "filter_title_icontains t qs = filter (\<lambda>m. icontains t (title m)) qs"

text \<open>
  \<open>filter(genres__id__in=ids)\<close> joins the queryset with the relation: every row comes
  back once for each related id that is in \<open>ids\<close>, so a movie with two of the listed
  genres comes back twice.
\<close>

definition filter_related_id_in :: "(movie \<Rightarrow> int list) \<Rightarrow> int list \<Rightarrow> movie list \<Rightarrow> movie list" where
  "filter_related_id_in rel ids qs =
     concat (map (\<lambda>m. map (\<lambda>_. m) (filter (\<lambda>g. g \<in> set ids) (rel m))) qs)"

text \<open>\<open>distinct()\<close>: \<open>SELECT DISTINCT\<close>, equal rows collapse into one.\<close>

definition distinct_rows :: "'a list \<Rightarrow> 'a list" where
  "distinct_rows qs = remdups qs"

subsection \<open>\<open>MovieViewSet\<close>\<close>

record movie_params =
  title_param :: "string option"
  genres_param :: "string option"
  actors_param :: "string option"

definition params_to_ints :: "string \<Rightarrow> error + int list" where
  "params_to_ints qs = comprehension py_int (split_comma qs)"

definition movie_get_queryset :: "database \<Rightarrow> movie_params \<Rightarrow> error + movie list" where
  "movie_get_queryset db rq =
     and_then
       (when_given (title_param rq)
          (\<lambda>t queryset. Inr (filter_title_icontains t queryset)) (movies db))
     (\<lambda>queryset. and_then
       (when_given (genres_param rq)
          (\<lambda>g queryset. and_then (params_to_ints g)
             (\<lambda>genres_ids. Inr (filter_related_id_in genres genres_ids queryset))) queryset)
     (\<lambda>queryset. and_then
       (when_given (actors_param rq)
          (\<lambda>a queryset. and_then (params_to_ints a)
             (\<lambda>actors_ids. Inr (filter_related_id_in actors actors_ids queryset))) queryset)
     (\<lambda>queryset. Inr (distinct_rows queryset))))"

subsection \<open>\<open>MovieSessionViewSet\<close>\<close>

text \<open>
  A \<open>QuerySet\<close> object is lazy: its query runs when the object is iterated, and the
  object then keeps the rows in its result cache and serves every later iteration from
  there. \<open>filter\<close> returns a new object without cache. \<open>query_rows\<close> are the rows the
  query yields on the database at hand; \<open>class_level\<close> marks the one object stored in
  the class attribute \<open>queryset\<close>, which is created when the module is loaded and
  shared by all requests of the process.
\<close>

record 'a queryset =
  class_level :: bool
  query_rows :: "'a list"

definition qs_filter :: "('a \<Rightarrow> bool) \<Rightarrow> 'a queryset \<Rightarrow> 'a queryset" where
  "qs_filter P qs = \<lparr>class_level = False, query_rows = filter P (query_rows qs)\<rparr>"

text \<open>
  The class-level queryset annotates every session with \<open>tickets_available\<close>. In SQL
  this is a left outer join with the tickets of the session, grouped by the session
  (one group per session row); \<open>Count("tickets")\<close> counts the joined rows whose ticket
  is not NULL. The value exists only in the rows read, not in the session table.
\<close>

record session_row =
  session :: movie_session
  tickets_available :: int

definition left_join_tickets :: "ticket list \<Rightarrow> movie_session \<Rightarrow> ticket option list" where
  "left_join_tickets ts s =
     (case filter (\<lambda>t. ticket_session_id t = session_id s) ts of
        [] \<Rightarrow> [None]
      | x # xs \<Rightarrow> map Some (x # xs))"

definition Count :: "'a option list \<Rightarrow> int" where
  "Count grp = int (length (filter (\<lambda>x. x \<noteq> None) grp))"

definition annotate_session :: "database \<Rightarrow> movie_session \<Rightarrow> session_row" where
  "annotate_session db s =
     \<lparr>session = s,
      tickets_available =
        rows (cinema_hall s) * seats_in_row (cinema_hall s)
        - Count (left_join_tickets (tickets db) s)\<rparr>"

definition session_queryset :: "database \<Rightarrow> session_row queryset" where
  "session_queryset db =
     \<lparr>class_level = True, query_rows = map (annotate_session db) (sessions db)\<rparr>"

record session_params =
  date_param :: "string option"
  movie_param :: "string option"

text \<open>
  \<open>get_queryset\<close> starts from \<open>self.queryset\<close>, the class-level object, and returns
  that very object when neither filter is applied.
\<close>

definition session_get_queryset :: "database \<Rightarrow> session_params \<Rightarrow> error + session_row queryset" where
  "session_get_queryset db rq =
     and_then
       (when_given (date_param rq)
          (\<lambda>date queryset. and_then (strptime_date date)
             (\<lambda>date. Inr (qs_filter (\<lambda>r. on_date (show_time (session r)) = date) queryset)))
          (session_queryset db))
     (\<lambda>queryset.
       when_given (movie_param rq)
          (\<lambda>movie_id_str queryset. and_then (py_int movie_id_str)
             (\<lambda>k. Inr (qs_filter (\<lambda>r. session_movie_id (session r) = k) queryset)))
          queryset)"

text \<open>
  The state of the server process that outlives a request: the result cache of the
  class-level queryset of this view set, \<open>None\<close> until that object is first iterated.
\<close>

record process =
  session_result_cache :: "session_row list option"

text \<open>
  Iterating a queryset: the class-level object answers from its cache once it has one,
  and fills it otherwise; any other object runs its query.
\<close>

definition fetch_all :: "process \<Rightarrow> session_row queryset \<Rightarrow> session_row list \<times> process" where
  "fetch_all p qs =
     (if class_level qs then
        (case session_result_cache p of
           Some cached \<Rightarrow> (cached, p)
         | None \<Rightarrow> (query_rows qs, p\<lparr>session_result_cache := Some (query_rows qs)\<rparr>))
      else (query_rows qs, p))"

text \<open>
  The \<open>list\<close> action (\<open>ListModelMixin.list\<close>): the view set names no pagination class,
  and without one the action serializes the queryset that \<open>get_queryset\<close> returned by
  iterating it. The result is the response together with the process state after it.
\<close>

definition session_list :: "database \<Rightarrow> process \<Rightarrow> session_params
    \<Rightarrow> (error + session_row list) \<times> process" where
  "session_list db p rq =
     (case session_get_queryset db rq of
        Inl e \<Rightarrow> (Inl e, p)
      | Inr queryset \<Rightarrow> (case fetch_all p queryset of (rs, p') \<Rightarrow> (Inr rs, p')))"

text \<open>
  The \<open>retrieve\<close> action (\<open>get_object\<close>): \<open>queryset.get(pk=pk)\<close> filters, and so runs a
  query of its own whatever the cache holds; no row is \<open>NotFound\<close>.
\<close>

definition session_retrieve :: "database \<Rightarrow> session_params \<Rightarrow> int \<Rightarrow> error + session_row" where
  "session_retrieve db rq pk =
     and_then (session_get_queryset db rq)
       (\<lambda>queryset.
          case query_rows (qs_filter (\<lambda>r. session_id (session r) = pk) queryset) of
            [] \<Rightarrow> Inl NotFound
          | [r] \<Rightarrow> Inr r
          | _ \<Rightarrow> Inl MultipleObjectsReturned)"

subsection \<open>\<open>OrderViewSet\<close>\<close>

text \<open>
  \<open>request.user\<close> is \<open>None\<close> for an anonymous request; \<open>IsAuthenticated\<close> refuses it.
\<close>

definition is_authenticated :: "int option \<Rightarrow> error + int" where
  "is_authenticated request_user =
     (case request_user of None \<Rightarrow> Inl NotAuthenticated | Some u \<Rightarrow> Inr u)"

definition order_get_queryset :: "database \<Rightarrow> int \<Rightarrow> cinema_order list" where
  "order_get_queryset db request_user = filter (\<lambda>ord. order_user ord = request_user) (orders db)"

text \<open>
  \<open>OrderPagination\<close>: pages of \<open>page_size = 10\<close> rows, numbered from 1; a page number
  outside the existing pages is \<open>NotFound\<close>, except that page 1 of an empty queryset is
  the empty page.
\<close>

definition page_size :: nat where
  "page_size = 10"

definition paginate_queryset :: "'a list \<Rightarrow> nat \<Rightarrow> error + 'a list" where
  "paginate_queryset queryset number =
     (let num_pages = max 1 ((length queryset + page_size - 1) div page_size)
      in if number < 1 \<or> num_pages < number then Inl NotFound
         else Inr (take page_size (drop ((number - 1) * page_size) queryset)))"

definition order_list :: "database \<Rightarrow> int option \<Rightarrow> nat \<Rightarrow> error + cinema_order list" where
  "order_list db request_user page =
     and_then (is_authenticated request_user)
       (\<lambda>u. paginate_queryset (order_get_queryset db u) page)"

text \<open>
  \<open>OrderViewSet.create\<close> is \<open>CreateModelMixin.create\<close>: the serializer validates the
  request data, then \<open>perform_create\<close> calls \<open>serializer.save(user=request.user)\<close>.
  \<open>save\<close> merges its keyword arguments over the validated data, so a \<open>user\<close> entry
  of the request data, had it survived validation, is replaced by the caller.
\<close>

record ticket_request =
  req_session :: int
  req_row :: int
  req_seat :: int

record order_data =
  data_user :: "int option"
  data_tickets :: "ticket_request list"

definition fresh_id :: "int list \<Rightarrow> int" where
  "fresh_id ids = fold max ids 0 + 1"

text \<open>
  Modelled from the spec: the ticket rules of \<open>cinema/models.py\<close> and
  \<open>cinema/serializers.py\<close>, which are not part of the sources at hand. A seat is valid
  for a hall when its row and seat number lie within the hall's bounds (rows and seats
  are numbered from 1); no two tickets of the whole system occupy the same
  (session, row, seat). A ticket for a session that does not exist is refused as well.
\<close>

definition seat_in_hall :: "cinema_hall \<Rightarrow> int \<Rightarrow> int \<Rightarrow> bool" where
  "seat_in_hall h r c = (1 \<le> r \<and> r \<le> rows h \<and> 1 \<le> c \<and> c \<le> seats_in_row h)"

definition ticket_place :: "ticket \<Rightarrow> int \<times> int \<times> int" where
  "ticket_place t = (ticket_session_id t, row t, seat t)"

definition request_place :: "ticket_request \<Rightarrow> int \<times> int \<times> int" where
  "request_place q = (req_session q, req_row q, req_seat q)"

definition validate_ticket :: "database \<Rightarrow> ticket_request \<Rightarrow> error + unit" where
  "validate_ticket db q =
     (case find (\<lambda>s. session_id s = req_session q) (sessions db) of
        None \<Rightarrow> Inl ValidationError
      | Some s \<Rightarrow>
          if \<not> seat_in_hall (cinema_hall s) (req_row q) (req_seat q) then Inl ValidationError
          else if request_place q \<in> set (map ticket_place (tickets db)) then Inl ValidationError
          else Inr ())"

text \<open>
  Modelled from the spec: the tickets of an order are checked and inserted one after
  the other, each against the tickets stored so far, those of the same order included.
\<close>

fun save_tickets :: "int \<Rightarrow> ticket_request list \<Rightarrow> database \<Rightarrow> error + database" where
  "save_tickets oid [] db = Inr db"
| "save_tickets oid (q # qs) db =
     and_then (validate_ticket db q)
       (\<lambda>_. save_tickets oid qs
          (db\<lparr>tickets := tickets db @
             [\<lparr>ticket_id = fresh_id (map ticket_id (tickets db)),
               row = req_row q, seat = req_seat q,
               ticket_session_id = req_session q, ticket_order_id = oid\<rparr>]\<rparr>))"

text \<open>
  Modelled from the spec: \<open>OrderSerializer.create\<close> of \<open>cinema/serializers.py\<close>. The
  order and its tickets are persisted together or not at all: when a ticket is refused
  the transaction is rolled back and the database is the one before the call. The
  result is the outcome together with the database after the call.
\<close>

definition order_serializer_create :: "database \<Rightarrow> order_data \<Rightarrow> (error + cinema_order) \<times> database" where
  "order_serializer_create db validated_data =
     (case data_user validated_data of
        None \<Rightarrow> (Inl IntegrityError, db)
      | Some u \<Rightarrow>
          (let ord = \<lparr>order_id = fresh_id (map order_id (orders db)), order_user = u\<rparr>
           in case save_tickets (order_id ord) (data_tickets validated_data)
                     (db\<lparr>orders := orders db @ [ord]\<rparr>) of
                Inl e \<Rightarrow> (Inl e, db)
              | Inr db' \<Rightarrow> (Inr ord, db')))"

definition serializer_save :: "database \<Rightarrow> order_data \<Rightarrow> int \<Rightarrow> (error + cinema_order) \<times> database" where
  "serializer_save db validated_data user =
     order_serializer_create db (validated_data\<lparr>data_user := Some user\<rparr>)"

definition perform_create :: "database \<Rightarrow> int \<Rightarrow> order_data \<Rightarrow> (error + cinema_order) \<times> database" where
  "perform_create db request_user serializer = serializer_save db serializer request_user"

definition order_create :: "database \<Rightarrow> int option \<Rightarrow> order_data \<Rightarrow> (error + cinema_order) \<times> database" where
  "order_create db request_user data =
     (case is_authenticated request_user of
        Inl e \<Rightarrow> (Inl e, db)
      | Inr u \<Rightarrow> perform_create db u data)"

subsection \<open>The actions of the view sets\<close>

text \<open>
  A view set offers the actions of the mixins among its base classes, and its own
  \<open>@action\<close> methods. \<open>ModelViewSet\<close> is the framework's class with all five mixins.
\<close>

datatype action =
    ActList | ActCreate | ActRetrieve | ActUpdate | ActPartialUpdate | ActDestroy
  | ActUploadImage

datatype base_class =
    CreateModelMixin | ListModelMixin | RetrieveModelMixin | UpdateModelMixin
  | DestroyModelMixin | GenericViewSet | ModelViewSet

datatype viewset =
    GenreViewSet | ActorViewSet | CinemaHallViewSet | MovieViewSet | MovieSessionViewSet
  | OrderViewSet

fun base_actions :: "base_class \<Rightarrow> action list" where
  "base_actions CreateModelMixin = [ActCreate]"
| "base_actions ListModelMixin = [ActList]"
| "base_actions RetrieveModelMixin = [ActRetrieve]"
| "base_actions UpdateModelMixin = [ActUpdate, ActPartialUpdate]"
| "base_actions DestroyModelMixin = [ActDestroy]"
| "base_actions GenericViewSet = []"
| "base_actions ModelViewSet =
     [ActCreate, ActRetrieve, ActUpdate, ActPartialUpdate, ActDestroy, ActList]"

fun bases :: "viewset \<Rightarrow> base_class list" where
  "bases GenreViewSet = [CreateModelMixin, ListModelMixin, GenericViewSet]"
| "bases ActorViewSet = [CreateModelMixin, ListModelMixin, GenericViewSet]"
| "bases CinemaHallViewSet = [CreateModelMixin, ListModelMixin, GenericViewSet]"
| "bases MovieViewSet =
     [ListModelMixin, CreateModelMixin, RetrieveModelMixin, GenericViewSet]"
| "bases MovieSessionViewSet = [ModelViewSet]"
| "bases OrderViewSet = [ListModelMixin, CreateModelMixin, GenericViewSet]"

fun extra_actions :: "viewset \<Rightarrow> action list" where
  "extra_actions MovieViewSet = [ActUploadImage]"
| "extra_actions _ = []"

definition viewset_actions :: "viewset \<Rightarrow> action list" where
  "viewset_actions v = concat (map base_actions (bases v)) @ extra_actions v"

subsection \<open>The specification's notions\<close>






text \<open>Hall capacity, and the number of tickets persisted for a session.\<close>

definition capacity :: "cinema_hall \<Rightarrow> int" where
  "capacity h = rows h * seats_in_row h"

definition tickets_sold :: "database \<Rightarrow> int \<Rightarrow> int" where
  "tickets_sold db sid = int (length (filter (\<lambda>t. ticket_session_id t = sid) (tickets db)))"

text \<open>The match conditions of the session list: the calendar day, the movie id.\<close>

definition on_day :: "string option \<Rightarrow> movie_session \<Rightarrow> bool" where
  "on_day p s =
     (case p of
        None \<Rightarrow> True
      | Some str \<Rightarrow>
          str = [] \<or>
          (case strptime_date str of Inl _ \<Rightarrow> False | Inr d \<Rightarrow> on_date (show_time s) = d))"

definition of_movie :: "string option \<Rightarrow> movie_session \<Rightarrow> bool" where
  "of_movie p s =
     (case p of
        None \<Rightarrow> True
      | Some str \<Rightarrow>
          str = [] \<or>
          (case py_int str of Inl _ \<Rightarrow> False | Inr k \<Rightarrow> session_movie_id s = k))"

text \<open>
  A list of ticket requests is acceptable in a database when every request names an
  existing session and a seat within that session's hall, no request asks for a place
  that a stored ticket occupies, and no two requests ask for the same place.
\<close>

definition acceptable :: "database \<Rightarrow> ticket_request list \<Rightarrow> bool" where
  "acceptable db qs =
     ((\<forall>q \<in> set qs.
         (case find (\<lambda>s. session_id s = req_session q) (sessions db) of
            None \<Rightarrow> False
          | Some s \<Rightarrow> seat_in_hall (cinema_hall s) (req_row q) (req_seat q))
         \<and> request_place q \<notin> set (map ticket_place (tickets db)))
      \<and> distinct (map request_place qs))"

definition unique_places :: "ticket list \<Rightarrow> bool" where
  "unique_places ts = distinct (map ticket_place ts)"

text \<open>
  A date written strictly as \<open>YYYY-MM-DD\<close>: four, two and two digits, and a day that
  exists in the calendar.
\<close>

fun strict_ymd :: "string \<Rightarrow> bool" where
  "strict_ymd [y1, y2, y3, y4, s1, m1, m2, s2, d1, d2] =
     (list_all is_digit [y1, y2, y3, y4, m1, m2, d1, d2] \<and> s1 = CHR ''-'' \<and> s2 = CHR ''-''
      \<and> (let y = char_nat y1 * 1000 + char_nat y2 * 100 + char_nat y3 * 10 + char_nat y4;
              m = two_digits m1 m2; d = two_digits d1 d2
          in 1 \<le> y \<and> 1 \<le> m \<and> m \<le> 12 \<and> 1 \<le> d \<and> d \<le> days_in_month y m))"
| "strict_ymd _ = False"

text \<open>The date such a string denotes: the digits read as year, month and day.\<close>

fun ymd_date :: "string \<Rightarrow> pydate" where
  "ymd_date [y1, y2, y3, y4, s1, m1, m2, s2, d1, d2] =
     \<lparr>year = char_nat y1 * 1000 + char_nat y2 * 100 + char_nat y3 * 10 + char_nat y4,
      month = two_digits m1 m2, day = two_digits d1 d2\<rparr>"
| "ymd_date _ = \<lparr>year = 0, month = 0, day = 0\<rparr>"

subsection \<open>Example data\<close>

definition example_hall :: cinema_hall where
  "example_hall = \<lparr>hall_id = 1, rows = 5, seats_in_row = 10\<rparr>"

definition example_sessions :: "movie_session list" where
  "example_sessions =
     [\<lparr>session_id = 1,
       show_time = \<lparr>on_date = \<lparr>year = 2024, month = 1, day = 5\<rparr>, hour = 18, minute = 30\<rparr>,
       session_movie_id = 1, cinema_hall = example_hall\<rparr>,
      \<lparr>session_id = 2,
       show_time = \<lparr>on_date = \<lparr>year = 2024, month = 10, day = 10\<rparr>, hour = 20, minute = 0\<rparr>,
       session_movie_id = 2, cinema_hall = example_hall\<rparr>]"

definition example_movies :: "movie list" where
  "example_movies =
     [\<lparr>movie_id = 1, title = ''Inception'', genres = [1, 2], actors = [3]\<rparr>,
      \<lparr>movie_id = 2, title = ''Alien'', genres = [2], actors = [4, 5]\<rparr>,
      \<lparr>movie_id = 3, title = ''Heat'', genres = [3], actors = [3]\<rparr>]"

definition example_db :: database where
  "example_db =
     \<lparr>movies = example_movies,
      sessions = example_sessions,
      orders = [\<lparr>order_id = 1, order_user = 7\<rparr>, \<lparr>order_id = 2, order_user = 8\<rparr>],
      tickets =
        [\<lparr>ticket_id = 1, row = 1, seat = 1, ticket_session_id = 1, ticket_order_id = 1\<rparr>]\<rparr>"

definition example_order :: order_data where
  "example_order =
     \<lparr>data_user = Some 7,
      data_tickets = [\<lparr>req_session = 1, req_row = 2, req_seat = 5\<rparr>,
                      \<lparr>req_session = 1, req_row = 2, req_seat = 6\<rparr>]\<rparr>"

definition example_db_after :: database where
  "example_db_after =
     \<lparr>movies = example_movies,
      sessions = example_sessions,
      orders = [\<lparr>order_id = 1, order_user = 7\<rparr>, \<lparr>order_id = 2, order_user = 8\<rparr>,
                \<lparr>order_id = 3, order_user = 9\<rparr>],
      tickets =
        [\<lparr>ticket_id = 1, row = 1, seat = 1, ticket_session_id = 1, ticket_order_id = 1\<rparr>,
         \<lparr>ticket_id = 2, row = 2, seat = 5, ticket_session_id = 1, ticket_order_id = 3\<rparr>,
         \<lparr>ticket_id = 3, row = 2, seat = 6, ticket_session_id = 1, ticket_order_id = 3\<rparr>]\<rparr>"

definition twice_same_seat :: order_data where
  "twice_same_seat =
     \<lparr>data_user = None,
      data_tickets = [\<lparr>req_session = 1, req_row = 2, req_seat = 5\<rparr>,
                      \<lparr>req_session = 1, req_row = 2, req_seat = 5\<rparr>]\<rparr>"

text \<open>
  The rows of the session list on \<open>example_db\<close>, and the process after a first list
  without filters has been served from that database.
\<close>

definition example_rows :: "session_row list" where
  "example_rows =
     [\<lparr>session = example_sessions ! 0, tickets_available = 49\<rparr>,
      \<lparr>session = example_sessions ! 1, tickets_available = 50\<rparr>]"

definition new_process :: process where
  "new_process = \<lparr>session_result_cache = None\<rparr>"

definition example_process :: process where
  "example_process = \<lparr>session_result_cache = Some example_rows\<rparr>"

definition no_filter :: session_params where
  "no_filter = \<lparr>date_param = None, movie_param = None\<rparr>"

text \<open>\<open>example_db\<close> after a third session has been created.\<close>

definition third_session :: movie_session where
  "third_session =
     \<lparr>session_id = 3,
      show_time = \<lparr>on_date = \<lparr>year = 2024, month = 5, day = 1\<rparr>, hour = 21, minute = 15\<rparr>,
      session_movie_id = 1, cinema_hall = example_hall\<rparr>"

definition example_db_third :: database where
  "example_db_third = example_db\<lparr>sessions := example_sessions @ [third_session]\<rparr>"

section \<open>Properties\<close>

subsection \<open>Errors raised by the parsers\<close>

lemma digits_acc_error: "digits_acc a n cs = Inl e \<Longrightarrow> e = ValueError"
  by (induction a n cs rule: digits_acc.induct) (auto split: if_splits)

lemma py_int_error: "py_int s = Inl e \<Longrightarrow> e = ValueError"
proof -
  have u: "unsigned_int cs = Inl e \<Longrightarrow> e = ValueError" for cs
    by (auto simp: unsigned_int_def split: list.splits if_splits dest: digits_acc_error)
  show "py_int s = Inl e \<Longrightarrow> e = ValueError"
    by (auto simp: py_int_def split: list.splits if_splits sum.splits dest: u)
qed

lemma strptime_date_error: "strptime_date s = Inl e \<Longrightarrow> e = ValueError"
  by (auto simp: strptime_date_def datetime_date_def split: list.splits if_splits prod.splits)

lemma comprehension_error:
  assumes "t \<in> set xs" and "f t = Inl e" and "\<And>x e'. f x = Inl e' \<Longrightarrow> e' = E"
  shows "comprehension f xs = Inl E"
  using assms(1,2)
proof (induction xs)
  case Nil
  then show ?case by simp
next
  case (Cons x xs)
  show ?case
  proof (cases "f x")
    case (Inl e')
    with assms(3) show ?thesis by auto
  next
    case (Inr y)
    with Cons have "t \<in> set xs" by auto
    from Cons.IH [OF this Cons.prems(2)] Inr show ?thesis by simp
  qed
qed

lemma comprehension_Inl:
  "comprehension f xs = Inl e \<Longrightarrow> \<exists>x \<in> set xs. f x = Inl e"
  by (induction xs) (auto split: sum.splits)

lemma params_to_ints_error:
  "t \<in> set (split_comma s) \<Longrightarrow> py_int t = Inl e \<Longrightarrow> params_to_ints s = Inl ValueError"
  unfolding params_to_ints_def
  by (rule comprehension_error [where f = py_int]) (auto dest: py_int_error)

lemma params_to_ints_ValueError: "params_to_ints s = Inl e \<Longrightarrow> e = ValueError"
  unfolding params_to_ints_def by (auto dest!: comprehension_Inl py_int_error)

text \<open>
  A token with a character that is neither a digit, a sign, an underscore nor white
  space is no integer.
\<close>

lemma digits_acc_foreign:
  "c \<in> set cs \<Longrightarrow> \<not> is_digit c \<Longrightarrow> c \<noteq> CHR ''_'' \<Longrightarrow> digits_acc a n cs = Inl ValueError"
  by (induction a n cs rule: digits_acc.induct) auto

lemma unsigned_int_foreign:
  "c \<in> set cs \<Longrightarrow> \<not> is_digit c \<Longrightarrow> c \<noteq> CHR ''_'' \<Longrightarrow> unsigned_int cs = Inl ValueError"
  by (auto simp: unsigned_int_def digits_acc_foreign split: list.splits)

lemma set_dropWhile_keeps: "c \<in> set xs \<Longrightarrow> \<not> P c \<Longrightarrow> c \<in> set (dropWhile P xs)"
  by (induction xs) auto

lemma set_strip_keeps: "c \<in> set s \<Longrightarrow> \<not> is_space c \<Longrightarrow> c \<in> set (strip s)"
  by (simp add: strip_def set_dropWhile_keeps)

lemma py_int_foreign:
  assumes "c \<in> set s" "\<not> is_digit c" "\<not> is_space c"
    "c \<noteq> CHR ''_''" "c \<noteq> CHR ''+''" "c \<noteq> CHR ''-''"
  shows "py_int s = Inl ValueError"
proof -
  from assms(1,3) have m: "c \<in> set (strip s)" by (rule set_strip_keeps)
  then obtain x xs where s: "strip s = x # xs" by (cases "strip s") auto
  show ?thesis
  proof (cases "x = CHR ''+'' \<or> x = CHR ''-''")
    case True
    with m s assms(5,6) have "c \<in> set xs" by auto
    then have "unsigned_int xs = Inl ValueError"
      using assms(2,4) by (rule unsigned_int_foreign)
    with True s show ?thesis by (auto simp: py_int_def)
  next
    case False
    from m s have "c \<in> set (x # xs)" by simp
    then have "unsigned_int (x # xs) = Inl ValueError"
      using assms(2,4) by (rule unsigned_int_foreign)
    with False s show ?thesis by (simp add: py_int_def)
  qed
qed

subsection \<open>Dates written strictly are accepted\<close>

lemma is_digit_cases:
  assumes "is_digit c"
  shows "c \<in> set ''0123456789''"
proof -
  from assms have "48 \<le> (of_char c :: nat)" and "(of_char c :: nat) \<le> 57"
    by (simp_all add: is_digit_def less_eq_char_def)
  then have "(of_char c :: nat) \<in> {48, 49, 50, 51, 52, 53, 54, 55, 56, 57}"
    by (auto; arith)
  then have "(of_char c :: nat) \<in> of_char ` set ''0123456789''"
    by simp
  then show ?thesis
    by (auto simp del: set_simps list.set)
qed

lemma char_nat_digit: "is_digit c \<Longrightarrow> char_nat c \<le> 9"
  unfolding is_digit_def less_eq_char_def char_nat_def by simp arith

lemma days_in_month_le: "days_in_month y m \<le> 31"
  by (simp add: days_in_month_def)

lemma match_Y_digits:
  "is_digit a \<Longrightarrow> is_digit b \<Longrightarrow> is_digit c \<Longrightarrow> is_digit d \<Longrightarrow>
     match_Y (a # b # c # d # rest) =
       [(char_nat a * 1000 + char_nat b * 100 + char_nat c * 10 + char_nat d, rest)]"
  by (simp add: match_Y_def)

lemma month_step:
  assumes "is_digit m1" "is_digit m2" "1 \<le> two_digits m1 m2" "two_digits m1 m2 \<le> 12"
  shows "\<exists>more. concat (map (\<lambda>(m, r3). concat (map (F m) (literal_dash r3)))
            (match_m (m1 # m2 # CHR ''-'' # rest)))
         = F (two_digits m1 m2) rest @ more"
proof -
  from is_digit_cases [OF assms(1)] assms(3,4) is_digit_cases [OF assms(2)]
  consider "m1 = CHR ''0''" "m2 \<in> set ''123456789''" | "m1 = CHR ''1''" "m2 \<in> set ''012''"
    by (auto simp: two_digits_def char_nat_def)
  then show ?thesis
  proof cases
    case 1
    then show ?thesis
      by (auto simp: match_m_def two_chars_def one_char_def between_def literal_dash_def)
  next
    case 2
    then show ?thesis
      by (auto simp: match_m_def two_chars_def one_char_def between_def literal_dash_def)
  qed
qed

lemma day_step:
  assumes "is_digit d1" "is_digit d2" "1 \<le> two_digits d1 d2" "two_digits d1 d2 \<le> 31"
  shows "\<exists>more. match_d [d1, d2] = (two_digits d1 d2, []) # more"
proof -
  from is_digit_cases [OF assms(1)] assms(4)
  consider "d1 = CHR ''0''" | "d1 = CHR ''1'' \<or> d1 = CHR ''2''" | "d1 = CHR ''3''"
    by (auto simp: two_digits_def char_nat_def)
  then show ?thesis
  proof cases
    case 1
    with assms(2,3) have "between CHR ''1'' CHR ''9'' d2"
      unfolding between_def is_digit_def less_eq_char_def two_digits_def char_nat_def
      by simp
    with 1 show ?thesis
      by (simp add: match_d_def two_chars_def one_char_def between_def)
  next
    case 2
    with assms(2) show ?thesis
      by (auto simp: match_d_def two_chars_def one_char_def between_def)
  next
    case 3
    with assms(2,4) have "between CHR ''0'' CHR ''1'' d2"
      unfolding between_def is_digit_def less_eq_char_def two_digits_def char_nat_def
      by simp
    with 3 show ?thesis
      by (simp add: match_d_def two_chars_def one_char_def between_def)
  qed
qed

lemma strict_ymd_chars:
  assumes "strict_ymd s"
  obtains y1 y2 y3 y4 m1 m2 d1 d2 where
    "s = [y1, y2, y3, y4, CHR ''-'', m1, m2, CHR ''-'', d1, d2]"
    "is_digit y1" "is_digit y2" "is_digit y3" "is_digit y4"
    "is_digit m1" "is_digit m2" "is_digit d1" "is_digit d2"
    "1 \<le> char_nat y1 * 1000 + char_nat y2 * 100 + char_nat y3 * 10 + char_nat y4"
    "1 \<le> two_digits m1 m2" "two_digits m1 m2 \<le> 12" "1 \<le> two_digits d1 d2"
    "two_digits d1 d2 \<le> days_in_month
        (char_nat y1 * 1000 + char_nat y2 * 100 + char_nat y3 * 10 + char_nat y4)
        (two_digits m1 m2)"
  using assms by (rule strict_ymd.elims(2)) (simp add: Let_def)

text \<open>
  Every date written strictly as \<open>YYYY-MM-DD\<close> is accepted by the parser, as the date
  its digits denote: the strings the parser rejects are not of that form.
\<close>

lemma strict_ymd_accepted:
  assumes "strict_ymd s"
  shows "strptime_date s = Inr (ymd_date s)"
proof -
  from assms obtain y1 y2 y3 y4 m1 m2 d1 d2 where
    s: "s = [y1, y2, y3, y4, CHR ''-'', m1, m2, CHR ''-'', d1, d2]"
    and y: "is_digit y1" "is_digit y2" "is_digit y3" "is_digit y4"
    and m: "is_digit m1" "is_digit m2" and d: "is_digit d1" "is_digit d2"
    and y1: "1 \<le> char_nat y1 * 1000 + char_nat y2 * 100 + char_nat y3 * 10 + char_nat y4"
    and mr: "1 \<le> two_digits m1 m2" "two_digits m1 m2 \<le> 12"
    and dr: "1 \<le> two_digits d1 d2"
      "two_digits d1 d2 \<le> days_in_month
        (char_nat y1 * 1000 + char_nat y2 * 100 + char_nat y3 * 10 + char_nat y4)
        (two_digits m1 m2)"
    by (rule strict_ymd_chars)
  define yy where "yy = char_nat y1 * 1000 + char_nat y2 * 100 + char_nat y3 * 10 + char_nat y4"
  define F :: "nat \<Rightarrow> string \<Rightarrow> ((nat \<times> nat \<times> nat) \<times> string) list"
    where "F = (\<lambda>m r4. map (\<lambda>(d, r5). ((yy, m, d), r5)) (match_d r4))"
  from dr(2) days_in_month_le [of yy "two_digits m1 m2"] have d31: "two_digits d1 d2 \<le> 31"
    by (simp add: yy_def)
  obtain more1 where m1: "concat (map (\<lambda>(m, r3). concat (map (F m) (literal_dash r3)))
            (match_m (m1 # m2 # CHR ''-'' # [d1, d2])))
         = F (two_digits m1 m2) [d1, d2] @ more1"
    using month_step [OF m mr, of F "[d1, d2]"] by blast
  obtain more2 where m2: "match_d [d1, d2] = (two_digits d1 d2, []) # more2"
    using day_step [OF d dr(1) d31] by blast
  have "regex_matches s = concat (map (\<lambda>(m, r3). concat (map (F m) (literal_dash r3)))
            (match_m (m1 # m2 # CHR ''-'' # [d1, d2])))"
    by (simp add: regex_matches_def s match_Y_digits [OF y] literal_dash_def F_def yy_def)
  with m1 m2 have r: "regex_matches s =
      ((yy, two_digits m1 m2, two_digits d1 d2), [])
        # map (\<lambda>(d, r5). ((yy, two_digits m1 m2, d), r5)) more2 @ more1"
    by (simp add: F_def)
  from y have "yy \<le> 9999"
    using char_nat_digit [of y1] char_nat_digit [of y2] char_nat_digit [of y3]
      char_nat_digit [of y4]
    by (simp add: yy_def)
  with y1 mr dr have "datetime_date yy (two_digits m1 m2) (two_digits d1 d2)
      = Inr \<lparr>year = yy, month = two_digits m1 m2, day = two_digits d1 d2\<rparr>"
    by (simp add: datetime_date_def yy_def)
  with r show ?thesis by (simp add: strptime_date_def s yy_def)
qed

subsection \<open>Substrings\<close>

lemma is_prefix_iff: "is_prefix xs ys = (\<exists>zs. ys = xs @ zs)"
  by (induction xs ys rule: is_prefix.induct) auto

text \<open>\<open>contains\<close> decides the contiguous-substring relation.\<close>

lemma contains_iff: "contains pat s = (\<exists>pre suf. s = pre @ pat @ suf)"
proof (induction s)
  case Nil
  show ?case by auto
next
  case (Cons y ys)
  have "(\<exists>pre suf. y # ys = pre @ pat @ suf) =
          ((\<exists>suf. y # ys = pat @ suf) \<or> (\<exists>pre suf. ys = pre @ pat @ suf))"
  proof
    assume "\<exists>pre suf. y # ys = pre @ pat @ suf"
    then obtain pre suf where e: "y # ys = pre @ pat @ suf" by blast
    show "(\<exists>suf. y # ys = pat @ suf) \<or> (\<exists>pre suf. ys = pre @ pat @ suf)"
    proof (cases pre)
      case Nil
      with e show ?thesis by auto
    next
      case (Cons p ps)
      with e have "ys = ps @ pat @ suf" by simp
      then show ?thesis by blast
    qed
  next
    assume "(\<exists>suf. y # ys = pat @ suf) \<or> (\<exists>pre suf. ys = pre @ pat @ suf)"
    then show "\<exists>pre suf. y # ys = pre @ pat @ suf"
    proof
      assume "\<exists>suf. y # ys = pat @ suf"
      then obtain suf where "y # ys = [] @ pat @ suf" by auto
      then show ?thesis by blast
    next
      assume "\<exists>pre suf. ys = pre @ pat @ suf"
      then obtain pre suf where "y # ys = (y # pre) @ pat @ suf" by auto
      then show ?thesis by blast
    qed
  qed
  with Cons show ?case by (simp add: is_prefix_iff)
qed

lemma icontains_iff:
  "icontains pat s = (\<exists>pre suf. map lower_char s = pre @ map lower_char pat @ suf)"
  by (simp add: icontains_def contains_iff)








subsection \<open>The movie list\<close>







lemma when_given_ids_error:
  "when_given p (\<lambda>g queryset. and_then (params_to_ints g)
             (\<lambda>ids. Inr (filter_related_id_in rel ids queryset))) qs = Inl e \<Longrightarrow> e = ValueError"
  by (auto simp: when_given_def and_then_def
      split: option.splits if_splits sum.splits dest: params_to_ints_ValueError)

text \<open>The movie list is returned whenever the id parameters given are well-formed.\<close>

lemma movie_get_queryset_returns:
  assumes "genres_param rq = None \<or> genres_param rq = Some []
             \<or> (\<exists>s ids. genres_param rq = Some s \<and> params_to_ints s = Inr ids)"
    and "actors_param rq = None \<or> actors_param rq = Some []
             \<or> (\<exists>s ids. actors_param rq = Some s \<and> params_to_ints s = Inr ids)"
  shows "\<exists>res. movie_get_queryset db rq = Inr res"
  using assms
  by (auto simp: movie_get_queryset_def when_given_def and_then_def split: option.splits)



subsection \<open>The session list\<close>

lemma Count_left_join_tickets:
  "Count (left_join_tickets ts s) = int (length (filter (\<lambda>t. ticket_session_id t = session_id s) ts))"
proof (cases "filter (\<lambda>t. ticket_session_id t = session_id s) ts")
  case Nil
  then show ?thesis by (simp add: Count_def left_join_tickets_def)
next
  case (Cons x xs)
  have "filter (\<lambda>x. x \<noteq> None) (map Some (x # xs)) = map Some (x # xs)"
    by (rule filter_True) auto
  with Cons show ?thesis by (simp add: Count_def left_join_tickets_def)
qed

lemma annotate_session_available:
  "tickets_available (annotate_session db s) = capacity (cinema_hall s) - tickets_sold db (session_id s)"
  by (simp add: annotate_session_def Count_left_join_tickets capacity_def tickets_sold_def)

lemma session_of_annotate: "session (annotate_session db s) = s"
  by (simp add: annotate_session_def)

lemma when_given_date:
  assumes "when_given p
          (\<lambda>date queryset. and_then (strptime_date date)
             (\<lambda>date. Inr (qs_filter (\<lambda>r. on_date (show_time (session r)) = date) queryset)))
          qs = Inr q1"
  shows "query_rows q1 = filter (\<lambda>r. on_day p (session r)) (query_rows qs)
       \<and> class_level q1 = (class_level qs \<and> (p = None \<or> p = Some []))"
proof (cases p)
  case None
  with assms show ?thesis by (simp add: when_given_def on_day_def)
next
  case (Some str)
  show ?thesis
  proof (cases "str = []")
    case True
    with Some assms show ?thesis by (simp add: when_given_def on_day_def)
  next
    case False
    with Some assms obtain d where "strptime_date str = Inr d"
      and "q1 = qs_filter (\<lambda>r. on_date (show_time (session r)) = d) qs"
      by (auto simp: when_given_def and_then_def split: sum.splits)
    with Some False show ?thesis by (simp add: on_day_def qs_filter_def)
  qed
qed

lemma when_given_movie:
  assumes "when_given p
          (\<lambda>movie_id_str queryset. and_then (py_int movie_id_str)
             (\<lambda>k. Inr (qs_filter (\<lambda>r. session_movie_id (session r) = k) queryset)))
          qs = Inr q1"
  shows "query_rows q1 = filter (\<lambda>r. of_movie p (session r)) (query_rows qs)
       \<and> class_level q1 = (class_level qs \<and> (p = None \<or> p = Some []))"
proof (cases p)
  case None
  with assms show ?thesis by (simp add: when_given_def of_movie_def)
next
  case (Some str)
  show ?thesis
  proof (cases "str = []")
    case True
    with Some assms show ?thesis by (simp add: when_given_def of_movie_def)
  next
    case False
    with Some assms obtain k where "py_int str = Inr k"
      and "q1 = qs_filter (\<lambda>r. session_movie_id (session r) = k) qs"
      by (auto simp: when_given_def and_then_def split: sum.splits)
    with Some False show ?thesis by (simp add: of_movie_def qs_filter_def)
  qed
qed

text \<open>
  The queryset that \<open>get_queryset\<close> returns: its rows on the database, and whether it
  is the class-level object.
\<close>

lemma session_get_queryset_rows:
  assumes "session_get_queryset db rq = Inr qs"
  shows "query_rows qs =
           filter (\<lambda>r. on_day (date_param rq) (session r) \<and> of_movie (movie_param rq) (session r))
             (map (annotate_session db) (sessions db))
       \<and> class_level qs =
           ((date_param rq = None \<or> date_param rq = Some [])
            \<and> (movie_param rq = None \<or> movie_param rq = Some []))"
proof -
  from assms obtain q1 where
    d: "when_given (date_param rq)
          (\<lambda>date queryset. and_then (strptime_date date)
             (\<lambda>date. Inr (qs_filter (\<lambda>r. on_date (show_time (session r)) = date) queryset)))
          (session_queryset db) = Inr q1"
    and m: "when_given (movie_param rq)
          (\<lambda>movie_id_str queryset. and_then (py_int movie_id_str)
             (\<lambda>k. Inr (qs_filter (\<lambda>r. session_movie_id (session r) = k) queryset))) q1 = Inr qs"
    by (auto simp: session_get_queryset_def and_then_def split: sum.splits)
  from when_given_date [OF d] when_given_movie [OF m] show ?thesis
    by (simp add: session_queryset_def conj_commute)
qed

text \<open>
  For a date written strictly as \<open>YYYY-MM-DD\<close> the date filter matches the sessions
  whose show time is on the day the digits denote.
\<close>

lemma on_day_strict:
  assumes "strict_ymd s"
  shows "on_day (Some s) sess = (on_date (show_time sess) = ymd_date s)"
proof -
  from assms have "s \<noteq> []" by auto
  with strict_ymd_accepted [OF assms] show ?thesis
    by (simp add: on_day_def)
qed

lemma map_session_filter:
  "map session (filter (\<lambda>r. P (session r)) (map (annotate_session db) ss)) = filter P ss"
  by (simp add: filter_map comp_def session_of_annotate)

text \<open>The session list is returned whenever the parameters given are well-formed.\<close>

lemma session_get_queryset_returns:
  assumes "date_param rq = None \<or> date_param rq = Some []
             \<or> (\<exists>s d. date_param rq = Some s \<and> strptime_date s = Inr d)"
    and "movie_param rq = None \<or> movie_param rq = Some []
             \<or> (\<exists>s k. movie_param rq = Some s \<and> py_int s = Inr k)"
  shows "\<exists>res. session_get_queryset db rq = Inr res"
  using assms
  by (auto simp: session_get_queryset_def when_given_def and_then_def split: option.splits)

text \<open>
  A read that runs its query: the list with a filter, the list in a process whose
  class-level queryset has not been iterated yet, and every retrieve. Such a read shows
  the sessions of the database that match the filters, each with the capacity of its
  hall minus the tickets stored for it.
\<close>

lemma session_list_fresh:
  assumes "session_list db p rq = (Inr rs, p')"
    and "session_result_cache p = None
         \<or> (\<exists>s. date_param rq = Some s \<and> s \<noteq> []) \<or> (\<exists>s. movie_param rq = Some s \<and> s \<noteq> [])"
  shows "map session rs =
           filter (\<lambda>s. on_day (date_param rq) s \<and> of_movie (movie_param rq) s) (sessions db)
       \<and> (\<forall>r \<in> set rs. tickets_available r =
             capacity (cinema_hall (session r)) - tickets_sold db (session_id (session r)))"
proof -
  from assms(1) obtain qs where g: "session_get_queryset db rq = Inr qs"
    and f: "fetch_all p qs = (rs, p')"
    by (auto simp: session_list_def split: sum.splits prod.splits)
  note q = session_get_queryset_rows [OF g]
  from f assms(2) q have rs: "rs = query_rows qs"
    by (auto simp: fetch_all_def split: if_splits option.splits)
  with q have "rs = filter (\<lambda>r. on_day (date_param rq) (session r) \<and> of_movie (movie_param rq) (session r))
             (map (annotate_session db) (sessions db))"
    by simp
  then show ?thesis
    by (auto simp: map_session_filter
        [of "\<lambda>s. on_day (date_param rq) s \<and> of_movie (movie_param rq) s"]
        annotate_session_available session_of_annotate)
qed

lemma session_retrieve_fresh:
  assumes "session_retrieve db rq pk = Inr r"
  shows "session_id (session r) = pk
       \<and> tickets_available r = capacity (cinema_hall (session r)) - tickets_sold db pk"
proof -
  from assms obtain qs where g: "session_get_queryset db rq = Inr qs"
    and f: "filter (\<lambda>r. session_id (session r) = pk) (query_rows qs) = [r]"
    by (auto simp: session_retrieve_def and_then_def qs_filter_def
        split: sum.splits list.splits)
  from f have "r \<in> set (filter (\<lambda>r. session_id (session r) = pk) (query_rows qs))" by simp
  with session_get_queryset_rows [OF g] obtain s where "r = annotate_session db s"
    and "session_id (session r) = pk"
    by auto
  then show ?thesis
    by (simp add: annotate_session_available session_of_annotate)
qed

text \<open>
  Once the class-level queryset has been iterated, every list without filters repeats
  the rows of that first iteration, whatever the database holds by then.
\<close>

lemma session_list_cached:
  assumes "date_param rq = None \<or> date_param rq = Some []"
    and "movie_param rq = None \<or> movie_param rq = Some []"
  shows "session_list db \<lparr>session_result_cache = Some cached\<rparr> rq
           = (Inr cached, \<lparr>session_result_cache = Some cached\<rparr>)"
  using assms
  by (auto simp: session_list_def session_get_queryset_def when_given_def and_then_def
      session_queryset_def fetch_all_def)

subsection \<open>Tickets available\<close>

lemma save_tickets_places:
  "save_tickets oid qs db = Inr db' \<Longrightarrow>
     map ticket_place (tickets db') = map ticket_place (tickets db) @ map request_place qs
     \<and> sessions db' = sessions db \<and> orders db' = orders db \<and> movies db' = movies db"
proof (induction qs arbitrary: db)
  case Nil
  then show ?case by simp
next
  case (Cons q qs)
  define db1 where "db1 = db\<lparr>tickets := tickets db @
             [\<lparr>ticket_id = fresh_id (map ticket_id (tickets db)),
               row = req_row q, seat = req_seat q,
               ticket_session_id = req_session q, ticket_order_id = oid\<rparr>]\<rparr>"
  from Cons.prems have rec: "save_tickets oid qs db1 = Inr db'"
    by (auto simp: and_then_def db1_def split: sum.splits)
  from Cons.IH [OF rec] show ?case
    by (simp add: db1_def ticket_place_def request_place_def)
qed

lemma save_tickets_sessions:
  assumes "save_tickets oid qs db = Inr db'"
  shows "map ticket_session_id (tickets db') = map ticket_session_id (tickets db) @ map req_session qs"
proof -
  have "map fst (map ticket_place (tickets db')) =
          map fst (map ticket_place (tickets db) @ map request_place qs)"
    using save_tickets_places [OF assms] by simp
  then show ?thesis
    by (simp add: comp_def ticket_place_def request_place_def)
qed

lemma length_filter_map: "length (filter P (map f xs)) = length (filter (\<lambda>x. P (f x)) xs)"
  by (induction xs) simp_all

lemma tickets_sold_map:
  "tickets_sold db sid = int (length (filter (\<lambda>k. k = sid) (map ticket_session_id (tickets db))))"
  by (simp add: tickets_sold_def length_filter_map comp_def)

lemma order_create_tickets_sold:
  assumes "order_create db0 usr data = (Inr ord, db)"
  shows "tickets_sold db sid =
           tickets_sold db0 sid + int (length (filter (\<lambda>q. req_session q = sid) (data_tickets data)))"
proof -
  from assms obtain db1 where
    "save_tickets (order_id ord) (data_tickets data) db1 = Inr db" and "tickets db1 = tickets db0"
    by (auto simp: order_create_def perform_create_def serializer_save_def
        order_serializer_create_def Let_def is_authenticated_def
        split: option.splits sum.splits)
  from save_tickets_sessions [OF this(1)] this(2)
  show ?thesis by (simp add: tickets_sold_map length_filter_map comp_def)
qed

text \<open>
  C2. The claim fails on the list without filters. That list is served from the
  class-level queryset, which keeps the rows of its first iteration: read before an
  order and again right after it, it shows 49 seats for session 1 both times, while
  the capacity less the tickets stored is 47 by then. The retrieve of the same session
  and the list filtered by its date both show 47.
\<close>

theorem tickets_available_stale_after_order:
  "session_list example_db new_process no_filter = (Inr example_rows, example_process)
   \<and> order_create example_db (Some 9) example_order
       = (Inr \<lparr>order_id = 3, order_user = 9\<rparr>, example_db_after)
   \<and> session_list example_db_after example_process no_filter
       = (Inr example_rows, example_process)
   \<and> tickets_available (example_rows ! 0) = 49
   \<and> session (example_rows ! 0) = example_sessions ! 0
   \<and> capacity (cinema_hall (example_sessions ! 0))
       - tickets_sold example_db_after (session_id (example_sessions ! 0)) = 47
   \<and> session_retrieve example_db_after no_filter 1
       = Inr \<lparr>session = example_sessions ! 0, tickets_available = 47\<rparr>
   \<and> session_list example_db_after example_process
        \<lparr>date_param = Some ''2024-01-05'', movie_param = None\<rparr>
       = (Inr [\<lparr>session = example_sessions ! 0, tickets_available = 47\<rparr>], example_process)"
proof -
  have 1: "session_list example_db new_process no_filter = (Inr example_rows, example_process)"
    by code_simp
  have 2: "order_create example_db (Some 9) example_order
       = (Inr \<lparr>order_id = 3, order_user = 9\<rparr>, example_db_after)"
    by code_simp
  have 3: "session_list example_db_after example_process no_filter
       = (Inr example_rows, example_process)"
    by code_simp
  have 4: "tickets_available (example_rows ! 0) = 49"
    and 5: "session (example_rows ! 0) = example_sessions ! 0"
    by (simp_all add: example_rows_def)
  have 6: "capacity (cinema_hall (example_sessions ! 0))
       - tickets_sold example_db_after (session_id (example_sessions ! 0)) = 47"
    by code_simp
  have 7: "session_retrieve example_db_after no_filter 1
       = Inr \<lparr>session = example_sessions ! 0, tickets_available = 47\<rparr>"
    by code_simp
  have 8: "session_list example_db_after example_process
        \<lparr>date_param = Some ''2024-01-05'', movie_param = None\<rparr>
       = (Inr [\<lparr>session = example_sessions ! 0, tickets_available = 47\<rparr>], example_process)"
    by code_simp
  from 1 2 3 4 5 6 7 8 show ?thesis by simp
qed

text \<open>
  C6. The claim fails on the list without filters, for the same reason: read before
  a session is created and again after, it returns the two sessions of the first read
  and not the third one, so not all sessions. The list filtered by the date of the new
  session returns it.
\<close>

theorem session_list_stale_after_create:
  "session_list example_db new_process no_filter = (Inr example_rows, example_process)
   \<and> sessions example_db_third = sessions example_db @ [third_session]
   \<and> session_list example_db_third example_process no_filter
       = (Inr example_rows, example_process)
   \<and> map session example_rows \<noteq> sessions example_db_third
   \<and> third_session \<notin> set (map session example_rows)
   \<and> session_list example_db_third example_process
        \<lparr>date_param = Some ''2024-05-01'', movie_param = Some ''1''\<rparr>
       = (Inr [\<lparr>session = third_session, tickets_available = 50\<rparr>], example_process)"
proof -
  have 1: "session_list example_db new_process no_filter = (Inr example_rows, example_process)"
    by code_simp
  have 2: "sessions example_db_third = sessions example_db @ [third_session]"
    by (simp add: example_db_third_def example_db_def)
  have 3: "session_list example_db_third example_process no_filter
       = (Inr example_rows, example_process)"
    by code_simp
  have 4: "map session example_rows \<noteq> sessions example_db_third"
    by (simp add: example_rows_def example_db_third_def example_sessions_def)
  have 5: "third_session \<notin> set (map session example_rows)"
    by code_simp
  have 6: "session_list example_db_third example_process
        \<lparr>date_param = Some ''2024-05-01'', movie_param = Some ''1''\<rparr>
       = (Inr [\<lparr>session = third_session, tickets_available = 50\<rparr>], example_process)"
    by code_simp
  from 1 2 3 4 5 6 show ?thesis by simp
qed

subsection \<open>Empty and malformed parameters\<close>

text \<open>
  C9. A filter parameter that is present with the empty string gives the same result as
  the request without that parameter, for each of \<open>title\<close>, \<open>genres\<close>, \<open>actors\<close>,
  \<open>date\<close> and \<open>movie\<close>: no filtering for it, and no error from it.
\<close>

theorem empty_filter_is_absent:
  "movie_get_queryset db (rq\<lparr>title_param := Some []\<rparr>)
     = movie_get_queryset db (rq\<lparr>title_param := None\<rparr>)
   \<and> movie_get_queryset db (rq\<lparr>genres_param := Some []\<rparr>)
     = movie_get_queryset db (rq\<lparr>genres_param := None\<rparr>)
   \<and> movie_get_queryset db (rq\<lparr>actors_param := Some []\<rparr>)
     = movie_get_queryset db (rq\<lparr>actors_param := None\<rparr>)
   \<and> session_get_queryset db (srq\<lparr>date_param := Some []\<rparr>)
     = session_get_queryset db (srq\<lparr>date_param := None\<rparr>)
   \<and> session_get_queryset db (srq\<lparr>movie_param := Some []\<rparr>)
     = session_get_queryset db (srq\<lparr>movie_param := None\<rparr>)"
  by (simp add: movie_get_queryset_def session_get_queryset_def when_given_def)

text \<open>
  C9 on the example: with all parameters empty, both lists are the unfiltered ones.
\<close>

theorem empty_filter_is_absent_witness:
  "movie_get_queryset example_db
     \<lparr>title_param = Some [], genres_param = Some [], actors_param = Some []\<rparr>
     = Inr example_movies
   \<and> session_get_queryset example_db \<lparr>date_param = Some [], movie_param = Some []\<rparr>
     = session_get_queryset example_db \<lparr>date_param = None, movie_param = None\<rparr>"
proof -
  have m: "movie_get_queryset example_db
     \<lparr>title_param = None, genres_param = None, actors_param = None\<rparr> = Inr example_movies"
    by code_simp
  from empty_filter_is_absent
      [of example_db "\<lparr>title_param = Some [], genres_param = Some [], actors_param = Some []\<rparr>"
          "\<lparr>date_param = Some [], movie_param = Some []\<rparr>"]
    empty_filter_is_absent
      [of example_db "\<lparr>title_param = None, genres_param = Some [], actors_param = Some []\<rparr>"
          "\<lparr>date_param = None, movie_param = Some []\<rparr>"]
    empty_filter_is_absent
      [of example_db "\<lparr>title_param = None, genres_param = None, actors_param = Some []\<rparr>"]
    m
  show ?thesis by simp
qed

text \<open>
  C10 as stated fails: \<open>2024-1-5\<close> is not written as \<open>YYYY-MM-DD\<close>, yet the date
  parser accepts it and the list comes back, filtered to the 5th of January 2024.
\<close>

theorem lenient_date_counterexample:
  "\<not> strict_ymd ''2024-1-5''
   \<and> session_list example_db new_process \<lparr>date_param = Some ''2024-1-5'', movie_param = None\<rparr>
       = (Inr [\<lparr>session = example_sessions ! 0, tickets_available = 49\<rparr>], new_process)"
  by code_simp

text \<open>
  C10, amended. For a non-empty \<open>date\<close> parameter the date filter is never ignored,
  whatever the state of the process: either the date parser rejects the string, which
  is then not a date written as \<open>YYYY-MM-DD\<close>, and the request fails with
  \<open>ValueError\<close>; or the parser yields a date and every session of a returned list is
  on that date.
\<close>

theorem date_filter_never_ignored:
  assumes "date_param rq = Some s" and "s \<noteq> []"
  shows "(strptime_date s = Inl ValueError \<and> \<not> strict_ymd s
            \<and> session_get_queryset db rq = Inl ValueError
            \<and> session_list db p rq = (Inl ValueError, p))
       \<or> (\<exists>d. strptime_date s = Inr d
            \<and> (\<forall>rs p'. session_list db p rq = (Inr rs, p') \<longrightarrow>
                  (\<forall>r \<in> set rs. on_date (show_time (session r)) = d)))"
proof (cases "strptime_date s")
  case (Inl e)
  then have "e = ValueError" by (rule strptime_date_error)
  moreover from Inl have "\<not> strict_ymd s" using strict_ymd_accepted [of s] by auto
  ultimately show ?thesis
    using Inl assms
    by (simp add: session_list_def session_get_queryset_def when_given_def and_then_def)
next
  case (Inr d)
  have "\<forall>r \<in> set rs. on_date (show_time (session r)) = d"
    if l: "session_list db p rq = (Inr rs, p')" for rs p'
  proof -
    from assms have "session_result_cache p = None
         \<or> (\<exists>s. date_param rq = Some s \<and> s \<noteq> []) \<or> (\<exists>s. movie_param rq = Some s \<and> s \<noteq> [])"
      by simp
    from session_list_fresh [OF l this]
    have "set (map session rs) \<subseteq> {s'. on_day (date_param rq) s'}"
      by auto
    with assms Inr show ?thesis
      by (auto simp: on_day_def)
  qed
  with Inr show ?thesis by blast
qed

text \<open>
  C10, amended, at \<open>?date=2024-02-30\<close>: no such day, the request fails; and at
  \<open>?date=2024-01-05\<close>, also in a process that holds cached rows.
\<close>

theorem date_filter_never_ignored_witness:
  "date_param \<lparr>date_param = Some ''2024-02-30'', movie_param = None\<rparr> = Some ''2024-02-30''
   \<and> ''2024-02-30'' \<noteq> []
   \<and> session_list example_db_after example_process
        \<lparr>date_param = Some ''2024-02-30'', movie_param = None\<rparr>
       = (Inl ValueError, example_process)
   \<and> strptime_date ''2024-01-05'' = Inr \<lparr>year = 2024, month = 1, day = 5\<rparr>
   \<and> session_list example_db_after example_process
        \<lparr>date_param = Some ''2024-01-05'', movie_param = None\<rparr>
       = (Inr [\<lparr>session = example_sessions ! 0, tickets_available = 47\<rparr>], example_process)
   \<and> on_date (show_time (example_sessions ! 0)) = \<lparr>year = 2024, month = 1, day = 5\<rparr>"
proof -
  have p: "strptime_date ''2024-02-30'' = Inl ValueError" by code_simp
  have q: "strptime_date ''2024-01-05'' = Inr \<lparr>year = 2024, month = 1, day = 5\<rparr>" by code_simp
  have l: "session_list example_db_after example_process
        \<lparr>date_param = Some ''2024-01-05'', movie_param = None\<rparr>
       = (Inr [\<lparr>session = example_sessions ! 0, tickets_available = 47\<rparr>], example_process)"
    by code_simp
  from date_filter_never_ignored
    [where rq = "\<lparr>date_param = Some ''2024-02-30'', movie_param = None\<rparr>"
       and s = "''2024-02-30''" and db = example_db_after and p = example_process]
    p
  have 1: "session_list example_db_after example_process
        \<lparr>date_param = Some ''2024-02-30'', movie_param = None\<rparr>
       = (Inl ValueError, example_process)"
    by simp
  from date_filter_never_ignored
    [where rq = "\<lparr>date_param = Some ''2024-01-05'', movie_param = None\<rparr>"
       and s = "''2024-01-05''" and db = example_db_after and p = example_process]
    q l
  have 2: "on_date (show_time (example_sessions ! 0)) = \<lparr>year = 2024, month = 1, day = 5\<rparr>"
    by simp
  from p q l 1 2 show ?thesis by simp
qed

lemma when_given_title_Inr:
  "\<exists>q. when_given p (\<lambda>t queryset. Inr (filter_title_icontains t queryset)) qs = Inr q"
  by (simp add: when_given_def split: option.splits)

text \<open>
  C7 as stated fails: a non-integer id makes the request fail with the \<open>ValueError\<close>
  of the integer conversion, which is not a \<open>ValidationError\<close>.
\<close>

theorem malformed_genres_counterexample:
  "movie_get_queryset example_db
     \<lparr>title_param = None, genres_param = Some ''1,x'', actors_param = None\<rparr> = Inl ValueError
   \<and> movie_get_queryset example_db
     \<lparr>title_param = None, genres_param = Some ''1,x'', actors_param = None\<rparr>
       \<noteq> Inl ValidationError"
  by code_simp

text \<open>
  C7, amended. A request whose non-empty \<open>genres\<close> or \<open>actors\<close> parameter has, between
  its commas, a token that the integer conversion \<open>int\<close> rejects, or whose non-empty
  \<open>movie\<close> parameter \<open>int\<close> rejects, fails with \<open>ValueError\<close>; no list is returned
  for it.
\<close>

theorem malformed_ids_raise_ValueError:
  "(genres_param rq = Some g \<and> g \<noteq> [] \<and> t \<in> set (split_comma g) \<and> py_int t = Inl e
      \<longrightarrow> movie_get_queryset db rq = Inl ValueError)
   \<and> (actors_param rq = Some a \<and> a \<noteq> [] \<and> t \<in> set (split_comma a) \<and> py_int t = Inl e
      \<longrightarrow> movie_get_queryset db rq = Inl ValueError)
   \<and> (movie_param srq = Some m \<and> m \<noteq> [] \<and> py_int m = Inl e
      \<longrightarrow> session_get_queryset db srq = Inl ValueError)"
proof (intro conjI impI)
  assume h: "genres_param rq = Some g \<and> g \<noteq> [] \<and> t \<in> set (split_comma g) \<and> py_int t = Inl e"
  then have "params_to_ints g = Inl ValueError" by (auto intro: params_to_ints_error)
  with h show "movie_get_queryset db rq = Inl ValueError"
    using when_given_title_Inr [of "title_param rq" "movies db"]
    by (auto simp: movie_get_queryset_def and_then_def when_given_def)
next
  assume h: "actors_param rq = Some a \<and> a \<noteq> [] \<and> t \<in> set (split_comma a) \<and> py_int t = Inl e"
  then have p: "params_to_ints a = Inl ValueError" by (auto intro: params_to_ints_error)
  obtain q0 where q0: "when_given (title_param rq)
      (\<lambda>t queryset. Inr (filter_title_icontains t queryset)) (movies db) = Inr q0"
    using when_given_title_Inr by blast
  show "movie_get_queryset db rq = Inl ValueError"
  proof (cases "when_given (genres_param rq) (\<lambda>g queryset. and_then (params_to_ints g)
             (\<lambda>ids. Inr (filter_related_id_in genres ids queryset))) q0")
    case (Inl e')
    then have "e' = ValueError" by (rule when_given_ids_error)
    with Inl q0 show ?thesis by (simp add: movie_get_queryset_def and_then_def)
  next
    case (Inr q1)
    with q0 h p show ?thesis
      by (simp add: movie_get_queryset_def and_then_def when_given_def)
  qed
next
  assume h: "movie_param srq = Some m \<and> m \<noteq> [] \<and> py_int m = Inl e"
  then have p: "py_int m = Inl ValueError" by (auto dest: py_int_error)
  show "session_get_queryset db srq = Inl ValueError"
  proof (cases "when_given (date_param srq)
          (\<lambda>date queryset. and_then (strptime_date date)
             (\<lambda>date. Inr (qs_filter (\<lambda>r. on_date (show_time (session r)) = date) queryset)))
          (session_queryset db)")
    case (Inl e')
    then have "e' = ValueError"
      by (auto simp: when_given_def and_then_def split: option.splits if_splits sum.splits
          dest: strptime_date_error)
    with Inl show ?thesis by (simp add: session_get_queryset_def and_then_def)
  next
    case (Inr q1)
    with h p show ?thesis
      by (simp add: session_get_queryset_def and_then_def when_given_def)
  qed
qed

text \<open>
  C7, amended, at \<open>?title=E&genres=1,2&actors=3,,4\<close> (an empty token), at
  \<open>?movie=1.5\<close>, and at \<open>?movie=%1C1\<close>: the control character \<open>0x1C\<close> is not
  white space for \<open>int\<close>, while the no-break space \<open>0xA0\<close> is, so \<open>?movie=%C2%A01\<close>
  is the movie 1.
\<close>

theorem malformed_ids_raise_ValueError_witness:
  "[] \<in> set (split_comma ''3,,4'') \<and> py_int [] = Inl ValueError
   \<and> movie_get_queryset example_db
       \<lparr>title_param = Some ''E'', genres_param = Some ''1,2'', actors_param = Some ''3,,4''\<rparr>
       = Inl ValueError
   \<and> py_int ''1.5'' = Inl ValueError
   \<and> session_get_queryset example_db \<lparr>date_param = None, movie_param = Some ''1.5''\<rparr>
       = Inl ValueError
   \<and> py_int [CHR 0x1C, CHR ''1''] = Inl ValueError
   \<and> session_get_queryset example_db
        \<lparr>date_param = None, movie_param = Some [CHR 0x1C, CHR ''1'']\<rparr>
       = Inl ValueError
   \<and> py_int [CHR 0xA0, CHR ''1''] = Inr 1
   \<and> session_list example_db new_process
        \<lparr>date_param = None, movie_param = Some [CHR 0xA0, CHR ''1'']\<rparr>
       = (Inr [\<lparr>session = example_sessions ! 0, tickets_available = 49\<rparr>], new_process)"
proof -
  have s: "[] \<in> set (split_comma ''3,,4'')" by code_simp
  have e: "py_int [] = Inl ValueError" by code_simp
  have f: "py_int ''1.5'' = Inl ValueError" by code_simp
  have g: "py_int [CHR 0x1C, CHR ''1''] = Inl ValueError" by code_simp
  have h: "py_int [CHR 0xA0, CHR ''1''] = Inr 1" by code_simp
  have l: "session_list example_db new_process
        \<lparr>date_param = None, movie_param = Some [CHR 0xA0, CHR ''1'']\<rparr>
       = (Inr [\<lparr>session = example_sessions ! 0, tickets_available = 49\<rparr>], new_process)"
    by code_simp
  from malformed_ids_raise_ValueError
    [where rq = "\<lparr>title_param = Some ''E'', genres_param = Some ''1,2'',
                   actors_param = Some ''3,,4''\<rparr>"
       and a = "''3,,4''" and t = "[]" and e = ValueError and db = example_db]
    s e
  have 1: "movie_get_queryset example_db
       \<lparr>title_param = Some ''E'', genres_param = Some ''1,2'', actors_param = Some ''3,,4''\<rparr>
       = Inl ValueError"
    by simp
  from malformed_ids_raise_ValueError
    [where srq = "\<lparr>date_param = None, movie_param = Some ''1.5''\<rparr>"
       and m = "''1.5''" and e = ValueError and db = example_db]
    f
  have 2: "session_get_queryset example_db \<lparr>date_param = None, movie_param = Some ''1.5''\<rparr>
       = Inl ValueError"
    by simp
  from malformed_ids_raise_ValueError
    [where srq = "\<lparr>date_param = None, movie_param = Some [CHR 0x1C, CHR ''1'']\<rparr>"
       and m = "[CHR 0x1C, CHR ''1'']" and e = ValueError and db = example_db]
    g
  have 3: "session_get_queryset example_db
        \<lparr>date_param = None, movie_param = Some [CHR 0x1C, CHR ''1'']\<rparr>
       = Inl ValueError"
    by simp
  from s e f g h l 1 2 3 show ?thesis by simp
qed

subsection \<open>Orders\<close>

text \<open>
  C4. The orders that \<open>get_queryset\<close> selects for a user are exactly the stored orders
  of that user, and every order on any page of the user's list is a stored order of
  that user; an order of somebody else is on none of them.
\<close>

theorem orders_list_own:
  "set (order_get_queryset db u) = {ord \<in> set (orders db). order_user ord = u}
   \<and> (order_list db (Some u) page = Inr os \<longrightarrow>
        (\<forall>ord \<in> set os. ord \<in> set (orders db) \<and> order_user ord = u))"
proof -
  have a: "set (order_get_queryset db u) = {ord \<in> set (orders db). order_user ord = u}"
    by (auto simp: order_get_queryset_def)
  have "set os \<subseteq> set (order_get_queryset db u)" if "order_list db (Some u) page = Inr os"
  proof -
    from that have "os = take page_size (drop ((page - 1) * page_size) (order_get_queryset db u))"
      by (auto simp: order_list_def is_authenticated_def and_then_def paginate_queryset_def Let_def
          split: if_splits)
    then show ?thesis
      by (metis set_take_subset set_drop_subset subset_trans)
  qed
  with a show ?thesis by auto
qed

text \<open>
  C4 on the example: user 7 sees the order of user 7 and not the order of user 8.
\<close>

theorem orders_list_own_witness:
  "order_list example_db (Some 7) 1 = Inr [\<lparr>order_id = 1, order_user = 7\<rparr>]
   \<and> \<lparr>order_id = 1, order_user = 7\<rparr> \<in> set (orders example_db)
   \<and> order_user \<lparr>order_id = 1, order_user = 7\<rparr> = 7
   \<and> \<lparr>order_id = 2, order_user = 8\<rparr> \<in> set (orders example_db)
   \<and> \<lparr>order_id = 2, order_user = 8\<rparr> \<notin> set (order_get_queryset example_db 7)"
proof -
  have h: "order_list example_db (Some 7) 1 = Inr [\<lparr>order_id = 1, order_user = 7\<rparr>]"
    by code_simp
  have m: "\<lparr>order_id = 2, order_user = 8\<rparr> \<in> set (orders example_db)"
    by (simp add: example_db_def)
  from orders_list_own [of example_db 7 1 "[\<lparr>order_id = 1, order_user = 7\<rparr>]"] h m
  show ?thesis by simp
qed

text \<open>
  C5. The owner entry of the request data has no effect on \<open>orders.create\<close>: the
  outcome and the database after the call are the same whatever it is. The order that
  is created and stored belongs to the authenticated caller.
\<close>

theorem order_owner_is_caller:
  "order_create db (Some u) (data\<lparr>data_user := x\<rparr>) = order_create db (Some u) data
   \<and> (order_create db (Some u) data = (Inr ord, db') \<longrightarrow>
        order_user ord = u \<and> orders db' = orders db @ [ord])"
proof (rule conjI)
  show "order_create db (Some u) (data\<lparr>data_user := x\<rparr>) = order_create db (Some u) data"
    by (simp add: order_create_def is_authenticated_def perform_create_def serializer_save_def)
next
  let ?ord = "\<lparr>order_id = fresh_id (map order_id (orders db)), order_user = u\<rparr>"
  show "order_create db (Some u) data = (Inr ord, db') \<longrightarrow>
        order_user ord = u \<and> orders db' = orders db @ [ord]"
  proof
    assume "order_create db (Some u) data = (Inr ord, db')"
    then have o: "ord = ?ord"
      and s: "save_tickets (order_id ?ord) (data_tickets data)
                (db\<lparr>orders := orders db @ [?ord]\<rparr>) = Inr db'"
      by (auto simp: order_create_def is_authenticated_def perform_create_def serializer_save_def
          order_serializer_create_def Let_def split: sum.splits)
    from save_tickets_places [OF s] o
    show "order_user ord = u \<and> orders db' = orders db @ [ord]" by simp
  qed
qed

text \<open>
  C5 on the example: user 9 sends the tickets with owner 7, and with owner 8; both
  calls give the same order, owned by 9.
\<close>

theorem order_owner_is_caller_witness:
  "order_create example_db (Some 9) (example_order\<lparr>data_user := Some 8\<rparr>)
     = order_create example_db (Some 9) example_order
   \<and> order_create example_db (Some 9) example_order
     = (Inr \<lparr>order_id = 3, order_user = 9\<rparr>, example_db_after)
   \<and> order_user \<lparr>order_id = 3, order_user = 9\<rparr> = 9
   \<and> orders example_db_after = orders example_db @ [\<lparr>order_id = 3, order_user = 9\<rparr>]"
proof -
  have h: "order_create example_db (Some 9) example_order
     = (Inr \<lparr>order_id = 3, order_user = 9\<rparr>, example_db_after)"
    by code_simp
  from order_owner_is_caller
    [where db = example_db and u = 9 and data = example_order and x = "Some 8"
       and ord = "\<lparr>order_id = 3, order_user = 9\<rparr>" and db' = example_db_after]
    h
  show ?thesis by simp
qed

lemma validate_ticket_error: "validate_ticket db q = Inl e \<Longrightarrow> e = ValidationError"
  by (auto simp: validate_ticket_def split: option.splits if_splits)

lemma save_tickets_error: "save_tickets oid qs db = Inl e \<Longrightarrow> e = ValidationError"
  by (induction qs arbitrary: db)
     (auto simp: and_then_def split: sum.splits dest: validate_ticket_error)

lemma validate_ticket_ok:
  "(validate_ticket db q = Inr ()) = acceptable db [q]"
  by (auto simp: validate_ticket_def acceptable_def split: option.splits)

lemma acceptable_Cons:
  "acceptable db (q # qs) =
     (acceptable db [q] \<and>
      acceptable (db\<lparr>tickets := tickets db @
             [\<lparr>ticket_id = i, row = req_row q, seat = req_seat q,
               ticket_session_id = req_session q, ticket_order_id = oid\<rparr>]\<rparr>) qs)"
proof -
  define P where "P a = (case find (\<lambda>s. session_id s = req_session a) (sessions db) of
            None \<Rightarrow> False
          | Some s \<Rightarrow> seat_in_hall (cinema_hall s) (req_row a) (req_seat a))"
    for a :: ticket_request
  define T where "T = set (map ticket_place (tickets db))"
  have new: "ticket_place \<lparr>ticket_id = i, row = req_row q, seat = req_seat q,
               ticket_session_id = req_session q, ticket_order_id = oid\<rparr> = request_place q"
    by (simp add: ticket_place_def request_place_def)
  have L: "acceptable db (q # qs) =
        ((P q \<and> request_place q \<notin> T) \<and> (\<forall>a\<in>set qs. P a \<and> request_place a \<notin> T)
         \<and> request_place q \<notin> request_place ` set qs \<and> distinct (map request_place qs))"
    by (auto simp: acceptable_def P_def T_def)
  have R1: "acceptable db [q] = (P q \<and> request_place q \<notin> T)"
    by (auto simp: acceptable_def P_def T_def)
  have R2: "acceptable (db\<lparr>tickets := tickets db @
             [\<lparr>ticket_id = i, row = req_row q, seat = req_seat q,
               ticket_session_id = req_session q, ticket_order_id = oid\<rparr>]\<rparr>) qs =
        ((\<forall>a\<in>set qs. P a \<and> request_place a \<notin> insert (request_place q) T)
         \<and> distinct (map request_place qs))"
    by (auto simp: acceptable_def P_def T_def new)
  show ?thesis unfolding L R1 R2 by (auto simp: image_iff)
qed

lemma save_tickets_acceptable:
  "(\<exists>db'. save_tickets oid qs db = Inr db') = acceptable db qs"
proof (induction qs arbitrary: db)
  case Nil
  show ?case by (simp add: acceptable_def)
next
  case (Cons q qs)
  show ?case
  proof (cases "validate_ticket db q")
    case (Inl e)
    then have "\<not> acceptable db [q]" using validate_ticket_ok [of db q] by simp
    with Inl show ?thesis
      by (simp add: and_then_def acceptable_Cons [of db q qs 0 oid])
  next
    case (Inr u)
    then have "acceptable db [q]" using validate_ticket_ok [of db q] by simp
    with Inr show ?thesis
      by (simp add: and_then_def Cons.IH
          acceptable_Cons [of db q qs "fresh_id (map ticket_id (tickets db))" oid])
  qed
qed

lemma acceptable_orders: "acceptable (db\<lparr>orders := os\<rparr>) qs = acceptable db qs"
  by (simp add: acceptable_def)

text \<open>
  C3. An order of an authenticated caller is created exactly when its ticket requests
  are acceptable: every seat within the bounds of its session's hall, none of the places
  taken by a stored ticket, no place asked for twice. Then the places of the stored
  tickets are the old ones followed by the requested ones, and if no place was occupied
  twice before, none is afterwards. Otherwise the call fails with \<open>ValidationError\<close>
  and the database is unchanged: no order and no ticket of the request is stored.
\<close>

theorem order_create_all_or_nothing:
  "(acceptable db (data_tickets data) \<longrightarrow>
      (\<exists>ord db'. order_create db (Some u) data = (Inr ord, db')
         \<and> map ticket_place (tickets db') =
             map ticket_place (tickets db) @ map request_place (data_tickets data)
         \<and> (unique_places (tickets db) \<longrightarrow> unique_places (tickets db'))))
   \<and> (\<not> acceptable db (data_tickets data) \<longrightarrow>
        order_create db (Some u) data = (Inl ValidationError, db))"
proof (intro conjI impI)
  let ?ord = "\<lparr>order_id = fresh_id (map order_id (orders db)), order_user = u\<rparr>"
  let ?db1 = "db\<lparr>orders := orders db @ [?ord]\<rparr>"
  assume ok: "acceptable db (data_tickets data)"
  then have "acceptable ?db1 (data_tickets data)" by (simp add: acceptable_orders)
  then obtain db' where s: "save_tickets (order_id ?ord) (data_tickets data) ?db1 = Inr db'"
    using save_tickets_acceptable by blast
  then have c: "order_create db (Some u) data = (Inr ?ord, db')"
    by (simp add: order_create_def is_authenticated_def perform_create_def serializer_save_def
        order_serializer_create_def Let_def)
  from save_tickets_places [OF s]
  have p: "map ticket_place (tickets db') =
             map ticket_place (tickets db) @ map request_place (data_tickets data)"
    by simp
  have "unique_places (tickets db')" if "unique_places (tickets db)"
    using that ok p by (auto simp: unique_places_def acceptable_def)
  with c p show "\<exists>ord db'. order_create db (Some u) data = (Inr ord, db')
         \<and> map ticket_place (tickets db') =
             map ticket_place (tickets db) @ map request_place (data_tickets data)
         \<and> (unique_places (tickets db) \<longrightarrow> unique_places (tickets db'))"
    by blast
next
  let ?ord = "\<lparr>order_id = fresh_id (map order_id (orders db)), order_user = u\<rparr>"
  let ?db1 = "db\<lparr>orders := orders db @ [?ord]\<rparr>"
  assume "\<not> acceptable db (data_tickets data)"
  then have "\<not> acceptable ?db1 (data_tickets data)" by (simp add: acceptable_orders)
  then have "\<nexists>db'. save_tickets (order_id ?ord) (data_tickets data) ?db1 = Inr db'"
    using save_tickets_acceptable by blast
  then obtain e where "save_tickets (order_id ?ord) (data_tickets data) ?db1 = Inl e"
    by (cases "save_tickets (order_id ?ord) (data_tickets data) ?db1") auto
  moreover from this have "e = ValidationError" by (rule save_tickets_error)
  ultimately show "order_create db (Some u) data = (Inl ValidationError, db)"
    by (simp add: order_create_def is_authenticated_def perform_create_def serializer_save_def
        order_serializer_create_def Let_def)
qed

text \<open>
  C3 on the example: the same seat (row 2, seat 5) twice in one request, and a seat in
  row 6 of a hall of 5 rows, are both refused and leave the database as it was; the
  order of two free seats is stored, and no place is occupied twice afterwards.
\<close>

theorem order_create_all_or_nothing_witness:
  "\<not> acceptable example_db (data_tickets twice_same_seat)
   \<and> order_create example_db (Some 9) twice_same_seat = (Inl ValidationError, example_db)
   \<and> \<not> acceptable example_db [\<lparr>req_session = 1, req_row = 6, req_seat = 1\<rparr>]
   \<and> order_create example_db (Some 9)
        \<lparr>data_user = None, data_tickets = [\<lparr>req_session = 1, req_row = 6, req_seat = 1\<rparr>]\<rparr>
       = (Inl ValidationError, example_db)
   \<and> acceptable example_db (data_tickets example_order)
   \<and> unique_places (tickets example_db)
   \<and> order_create example_db (Some 9) example_order
       = (Inr \<lparr>order_id = 3, order_user = 9\<rparr>, example_db_after)
   \<and> unique_places (tickets example_db_after)"
proof -
  have a: "\<not> acceptable example_db (data_tickets twice_same_seat)" by code_simp
  have b: "\<not> acceptable example_db [\<lparr>req_session = 1, req_row = 6, req_seat = 1\<rparr>]"
    by code_simp
  have c: "acceptable example_db (data_tickets example_order)" by code_simp
  have d: "unique_places (tickets example_db)" by code_simp
  have h: "order_create example_db (Some 9) example_order
       = (Inr \<lparr>order_id = 3, order_user = 9\<rparr>, example_db_after)"
    by code_simp
  from order_create_all_or_nothing [where db = example_db and data = twice_same_seat and u = 9] a
  have 1: "order_create example_db (Some 9) twice_same_seat = (Inl ValidationError, example_db)"
    by blast
  from order_create_all_or_nothing
    [where db = example_db and u = 9 and data =
        "\<lparr>data_user = None, data_tickets = [\<lparr>req_session = 1, req_row = 6, req_seat = 1\<rparr>]\<rparr>"]
    b
  have 2: "order_create example_db (Some 9)
        \<lparr>data_user = None, data_tickets = [\<lparr>req_session = 1, req_row = 6, req_seat = 1\<rparr>]\<rparr>
       = (Inl ValidationError, example_db)"
    by simp
  from order_create_all_or_nothing [where db = example_db and data = example_order and u = 9] c d h
  have 3: "unique_places (tickets example_db_after)"
    by auto
  from a b c d h 1 2 3 show ?thesis by simp
qed

subsection \<open>Actions\<close>

text \<open>
  C8 as stated fails: the movie-sessions view set offers \<open>destroy\<close>, and more than
  list, create and retrieve.
\<close>

theorem movie_sessions_destroy_counterexample:
  "ActDestroy \<in> set (viewset_actions MovieSessionViewSet)
   \<and> set (viewset_actions MovieSessionViewSet) \<noteq> {ActList, ActCreate, ActRetrieve}"
  by (auto simp: viewset_actions_def)

text \<open>
  C8, amended. Every view set other than the movie-sessions one offers neither update,
  partial update nor destroy; the movie-sessions view set offers list, create,
  retrieve, update, partial update and destroy.
\<close>

theorem exposed_actions:
  "(v \<noteq> MovieSessionViewSet \<longrightarrow>
      ActDestroy \<notin> set (viewset_actions v) \<and> ActUpdate \<notin> set (viewset_actions v)
      \<and> ActPartialUpdate \<notin> set (viewset_actions v))
   \<and> set (viewset_actions MovieSessionViewSet) =
       {ActList, ActCreate, ActRetrieve, ActUpdate, ActPartialUpdate, ActDestroy}"
  by (cases v) (auto simp: viewset_actions_def)

text \<open>C8, amended, at the movies view set: list, create, retrieve and the image upload.\<close>

theorem exposed_actions_witness:
  "MovieViewSet \<noteq> MovieSessionViewSet
   \<and> ActDestroy \<notin> set (viewset_actions MovieViewSet)
   \<and> ActUpdate \<notin> set (viewset_actions MovieViewSet)
   \<and> ActPartialUpdate \<notin> set (viewset_actions MovieViewSet)
   \<and> viewset_actions MovieViewSet = [ActList, ActCreate, ActRetrieve, ActUploadImage]"
proof -
  have l: "viewset_actions MovieViewSet = [ActList, ActCreate, ActRetrieve, ActUploadImage]"
    by (simp add: viewset_actions_def)
  have "MovieViewSet \<noteq> MovieSessionViewSet" by simp
  with exposed_actions [of MovieViewSet] l show ?thesis by blast
qed


end
